theory Spec2Isabelle
  imports Complex_Main "HOL-Library.Word"
begin

section \<open>JavaScript values used by \<open>src/lib/utils.ts\<close>\<close>

text \<open>
  A JavaScript string is a sequence of UTF-16 code units: \<open>length\<close> counts code units,
  \<open>slice\<close> cuts between code units, and a regular expression without the \<open>u\<close> flag
  matches code unit by code unit.
\<close>

type_synonym code_unit = "16 word"
type_synonym js_string = "code_unit list"

text \<open>An ASCII string literal of the source, as code units.\<close>

definition js :: "string \<Rightarrow> js_string" where
  "js s = map of_char s"

text \<open>
  A JavaScript \<open>number\<close> is an IEEE 754 double: a finite value, one of the two
  infinities, or NaN. A finite double is \<open>m * 2^e\<close> with an integer \<open>m\<close> of at most 53
  bits and \<open>-1074 \<le> e \<le> 971\<close>; \<open>Num x\<close> carries its exact value. Finite values
  are compared by their numerical order, which \<open>>=\<close> does without rounding; every
  comparison with NaN is false.
\<close>

datatype number = Num real | PosInf | NegInf | NaN

definition is_double :: "real \<Rightarrow> bool" where
  "is_double x =
     (\<exists>(m::int) (k::nat). \<bar>m\<bar> < 2 ^ 53
        \<and> ((k \<le> 971 \<and> x = of_int m * 2 ^ k) \<or> (k \<le> 1074 \<and> x = of_int m / 2 ^ k)))"

text \<open>
  A decimal literal of the source denotes the double nearest to the number it writes.
  Between 1/2 and 1 the doubles are the multiples of \<open>2^-53\<close>: the literal \<open>0.8\<close> is
  \<open>7205759403792794 / 2^53\<close> (hexadecimal \<open>0x1.999999999999ap-1\<close>), just above 0.8, and
  the literal \<open>0.6\<close> is \<open>5404319552844595 / 2^53\<close> (\<open>0x1.3333333333333p-1\<close>), just
  below 0.6.
\<close>

definition lit_0_8 :: real where
  "lit_0_8 = 7205759403792794 / 2 ^ 53"

definition lit_0_6 :: real where
  "lit_0_6 = 5404319552844595 / 2 ^ 53"

fun number_ge :: "number \<Rightarrow> number \<Rightarrow> bool" where
  "number_ge NaN _ = False"
| "number_ge _ NaN = False"
| "number_ge (Num x) (Num y) = (y \<le> x)"
| "number_ge PosInf _ = True"
| "number_ge _ NegInf = True"
| "number_ge (Num _) PosInf = False"
| "number_ge NegInf _ = False"

section \<open>Voice processing utilities\<close>

text \<open>
  \<^verbatim>\<open>
  export function getConfidenceColor(confidence: number): string {
    if (confidence >= 0.8) return 'text-green-600';
    if (confidence >= 0.6) return 'text-yellow-600';
    return 'text-red-600';
  }
  \<close>
\<close>

definition getConfidenceColor :: "number \<Rightarrow> js_string" where
  "getConfidenceColor confidence =
     (if number_ge confidence (Num lit_0_8) then js ''text-green-600''
      else if number_ge confidence (Num lit_0_6) then js ''text-yellow-600''
      else js ''text-red-600'')"

section \<open>String utilities\<close>

text \<open>
  \<^verbatim>\<open>
  export function truncateText(text: string, maxLength: number): string {
    if (text.length <= maxLength) return text;
    return text.slice(0, maxLength) + '...';
  }
  \<close>
  The bound is a natural number here; \<open>slice(0, n)\<close> with \<open>0 \<le> n\<close> is the first
  \<open>n\<close> code units (all of them when the string is shorter).
\<close>

definition truncateText :: "js_string \<Rightarrow> nat \<Rightarrow> js_string" where
  "truncateText text maxLength =
     (if length text \<le> maxLength then text
      else take maxLength text @ js ''...'')"

text \<open>
  \<^verbatim>\<open>
  export function slugify(text: string): string {
    return text
      .toLowerCase()
      .replace(/[^\w\s-]/g, '')
      .replace(/[\s_-]+/g, '-')
      .replace(/^-+|-+$/g, '');
  }
  \<close>
\<close>

definition hyphen :: code_unit where
  "hyphen = 0x2D"

definition isUpperAscii :: "code_unit \<Rightarrow> bool" where
  "isUpperAscii c = (0x41 \<le> c \<and> c \<le> 0x5A)"

definition isLowerAscii :: "code_unit \<Rightarrow> bool" where
  "isLowerAscii c = (0x61 \<le> c \<and> c \<le> 0x7A)"

definition isDigit :: "code_unit \<Rightarrow> bool" where
  "isDigit c = (0x30 \<le> c \<and> c \<le> 0x39)"

text \<open>The class \<open>\w\<close> (no \<open>u\<close> or \<open>i\<close> flag): \<open>[A-Za-z0-9_]\<close>.\<close>

definition isWordChar :: "code_unit \<Rightarrow> bool" where
  "isWordChar c = (isUpperAscii c \<or> isLowerAscii c \<or> isDigit c \<or> c = 0x5F)"

text \<open>
  The class \<open>\s\<close>: the WhiteSpace and LineTerminator code points of ECMAScript (tab,
  LF, VT, FF, CR, space, no-break space, U+1680, U+2000 to U+200A, U+2028, U+2029,
  U+202F, U+205F, U+3000 and the byte order mark U+FEFF).
\<close>

definition isWhiteSpace :: "code_unit \<Rightarrow> bool" where
  "isWhiteSpace c =
     (c \<in> set [0x09, 0x0A, 0x0B, 0x0C, 0x0D, 0x20, 0xA0, 0x1680, 0x2028, 0x2029,
                0x202F, 0x205F, 0x3000, 0xFEFF]
      \<or> (0x2000 \<le> c \<and> c \<le> 0x200A))"

text \<open>
  \<open>toLowerCase\<close>. On an ASCII code unit the result is fixed by the language whatever
  surrounds it: \<open>A\<close> to \<open>Z\<close> go to \<open>a\<close> to \<open>z\<close>, every other ASCII unit stays. For a
  unit from U+0080 on, the result comes from the Unicode case tables of the runtime
  (with their context rules and surrogate pairs), which are not part of the repository:
  they are the parameter \<open>tbl\<close>, called with the units in front (\<open>pre\<close>), the unit
  itself and the units behind (\<open>post\<close>), and returning the units written for it.
\<close>

type_synonym lower_table = "js_string \<Rightarrow> code_unit \<Rightarrow> js_string \<Rightarrow> js_string"

definition lowerUnit :: "lower_table \<Rightarrow> js_string \<Rightarrow> code_unit \<Rightarrow> js_string \<Rightarrow> js_string" where
  "lowerUnit tbl pre c post =
     (if c < 0x80 then [if isUpperAscii c then c + 0x20 else c]
      else tbl pre c post)"

fun lowerFrom :: "lower_table \<Rightarrow> js_string \<Rightarrow> js_string \<Rightarrow> js_string" where
  "lowerFrom tbl pre [] = []"
| "lowerFrom tbl pre (c # post) = lowerUnit tbl pre c post @ lowerFrom tbl (pre @ [c]) post"

definition toLowerCase :: "lower_table \<Rightarrow> js_string \<Rightarrow> js_string" where
  "toLowerCase tbl s = lowerFrom tbl [] s"

text \<open>\<open>.replace(/[^\w\s-]/g, '')\<close>: every code unit outside the class is deleted.\<close>

definition removeOthers :: "js_string \<Rightarrow> js_string" where
  "removeOthers s = filter (\<lambda>c. isWordChar c \<or> isWhiteSpace c \<or> c = hyphen) s"

text \<open>
  \<open>.replace(/[\s_-]+/g, '-')\<close>: scanning from the left, every maximal run of white
  space, underscores and hyphens becomes one hyphen.
\<close>

definition isSeparator :: "code_unit \<Rightarrow> bool" where
  "isSeparator c = (isWhiteSpace c \<or> c = 0x5F \<or> c = hyphen)"

function collapseRuns :: "js_string \<Rightarrow> js_string" where
  "collapseRuns [] = []"
| "collapseRuns (c # cs) =
     (if isSeparator c then hyphen # collapseRuns (dropWhile isSeparator cs)
      else c # collapseRuns cs)"
  by pat_completeness auto
termination
  by (relation "measure length") (auto simp: length_dropWhile_le le_imp_less_Suc)

text \<open>
  \<open>.replace(/^-+|-+$/g, '')\<close>: without the \<open>m\<close> flag \<open>^\<close> and \<open>$\<close> are the two ends
  of the string, so the run of hyphens at the start and the run at the end are deleted.
\<close>

definition trimHyphens :: "js_string \<Rightarrow> js_string" where
  "trimHyphens s =
     rev (dropWhile (\<lambda>c. c = hyphen) (rev (dropWhile (\<lambda>c. c = hyphen) s)))"

definition slugify :: "lower_table \<Rightarrow> js_string \<Rightarrow> js_string" where
  "slugify tbl text =
     trimHyphens (collapseRuns (removeOthers (toLowerCase tbl text)))"

text \<open>
  What the case tables are known to do: no code unit from U+0080 on is lowered to
  anything containing a capital ASCII letter.
\<close>

definition lowersToNoCapital :: "lower_table \<Rightarrow> bool" where
  "lowersToNoCapital tbl =
     (\<forall>pre c post. 0x80 \<le> c \<longrightarrow> (\<forall>u \<in> set (tbl pre c post). \<not> isUpperAscii u))"

text \<open>A table that leaves every code unit from U+0080 on as it is.\<close>

definition keepUnit :: lower_table where
  "keepUnit pre c post = [c]"

text \<open>The code units a slug is made of: \<open>a\<close> to \<open>z\<close>, \<open>0\<close> to \<open>9\<close> and the hyphen.\<close>

definition isSlugUnit :: "code_unit \<Rightarrow> bool" where
  "isSlugUnit c = (isLowerAscii c \<or> isDigit c \<or> c = hyphen)"

section \<open>The voice command dispatcher of the specification\<close>

text \<open>
  Modelled from the spec: the repository holds no implementation of the Conversation
  Context or of the Command Dispatcher (its files are the front end, the type
  declarations and the guides), so the data model of section 3, the contract of section
  4.3 and the algorithm of section 4.4 are written down here from the spec's words. The
  Intent Classifier, the Entity Extractor and the persistence collaborator are
  parameters; the clock is the argument \<open>now\<close>.
\<close>

datatype intent_tag =
  CreateTask | UpdateTask | CompleteTask | AssignTask | CreateProject | UpdateProject
  | QueryTasks | QueryProjects | Navigate | Help | Unknown

text \<open>
  Modelled from the spec: the slot names of the EntitySet of section 3, a mapping from
  slot name to extracted value with every value optional.
\<close>

datatype slot = task_name | project_name | due_date | priority | assignee | status

type_synonym entity_set = "slot \<rightharpoonup> string"

text \<open>
  Modelled from the spec: an Intent is the enumerated tag plus the confidence that
  produced it; the gate of section 4.4 reads this confidence.
\<close>

record intent =
  tag :: intent_tag
  confidence :: real

text \<open>
  Modelled from the spec: the Utterance of section 3, the transcribed text with its
  confidence score, timestamp and session identifier.
\<close>

record utterance =
  transcript :: string
  score :: real
  timestamp :: int
  sessionId :: string

text \<open>
  Modelled from the spec: the ConversationContext of section 3, the pending intent, the
  partially filled EntitySet, the time of the last activity and the turn count; the store
  keeps one per user id (section 9).
\<close>

record conversation_context =
  pending :: intent
  entities :: entity_set
  lastActivity :: int
  turnCount :: nat

text \<open>
  Modelled from the spec: the inactivity window and the maximum turn count of the expiry
  policy of section 4.3, whose values the spec leaves to the configuration.
\<close>

record config =
  inactivityWindow :: int
  maxTurns :: nat

type_synonym user_id = string
type_synonym context_store = "user_id \<rightharpoonup> conversation_context"

text \<open>
  Modelled from the spec: section 4.3, \<open>isExpired(context, now)\<close>: a context is expired
  if \<open>now - lastActivity > inactivityWindow\<close> or \<open>turnCount >= maxTurns\<close>.
\<close>

definition isExpired :: "config \<Rightarrow> conversation_context \<Rightarrow> int \<Rightarrow> bool" where
  "isExpired cfg c now =
     (now - lastActivity c > inactivityWindow cfg \<or> maxTurns cfg \<le> turnCount c)"

text \<open>
  Modelled from the spec: section 4.3, \<open>get\<close>, \<open>set\<close> and \<open>clear\<close> on the keyed store
  of section 9. Every reader goes through \<open>get\<close>, which treats an expired context as
  absent; whether the entry is also removed from the store is left open by the spec
  (lazy eviction or a background sweep, with identical behaviour), and \<open>get\<close> here only
  reads.
\<close>

definition get :: "config \<Rightarrow> context_store \<Rightarrow> user_id \<Rightarrow> int \<Rightarrow> conversation_context option" where
  "get cfg st uid now =
     (case st uid of
        None \<Rightarrow> None
      | Some c \<Rightarrow> if isExpired cfg c now then None else Some c)"

definition set_context :: "context_store \<Rightarrow> user_id \<Rightarrow> conversation_context \<Rightarrow> context_store" where
  "set_context st uid c = st(uid \<mapsto> c)"

definition clear :: "context_store \<Rightarrow> user_id \<Rightarrow> context_store" where
  "clear st uid = st(uid := None)"

text \<open>
  Modelled from the spec: the ActionResult of section 3 and the error taxonomy of section
  7. The response text is kept as the kind of message the spec asks for; the payload is a
  reference to the created or updated entity.
\<close>

datatype error_kind =
  TranscriptionFailure | ClassificationLowConfidence | IncompleteSlots
  | ActionExecutionError | ContextExpired

datatype reply =
  Executed | AskFor "slot option" | NotUnderstood "string list" | CancelAcknowledged
  | PleaseRetry

type_synonym entity_ref = string

record action_result =
  success :: bool
  response :: reply
  payload :: "entity_ref option"
  error :: "error_kind option"

text \<open>
  Modelled from the spec: the persistence collaborator of section 6, called with the
  user, the operation and the entities; \<open>None\<close> is a failed call. What \<open>dispatch\<close> gives
  back is the ActionResult together with the store it leaves and the calls it made to the
  collaborator, in order.
\<close>

type_synonym request = "user_id \<times> intent_tag \<times> entity_set"
type_synonym persistence = "user_id \<Rightarrow> intent_tag \<Rightarrow> entity_set \<Rightarrow> entity_ref option"

record outcome =
  result :: action_result
  store :: context_store
  calls :: "request list"

text \<open>
  Modelled from the spec: the required-slot table of section 4.4, step 4. The target
  value of UpdateTask is read as any one of due date, assignee, priority or status, that
  of AssignTask as the assignee; an intent without a row requires nothing.
\<close>

definition present :: "slot \<Rightarrow> entity_set \<Rightarrow> bool" where
  "present s es = (es s \<noteq> None)"

fun slotsComplete :: "intent_tag \<Rightarrow> entity_set \<Rightarrow> bool" where
  "slotsComplete CreateTask es = present task_name es"
| "slotsComplete UpdateTask es =
     (present task_name es
      \<and> (present due_date es \<or> present assignee es \<or> present priority es \<or> present status es))"
| "slotsComplete CompleteTask es = present task_name es"
| "slotsComplete AssignTask es = (present task_name es \<and> present assignee es)"
| "slotsComplete CreateProject es = present project_name es"
| "slotsComplete UpdateProject es = present project_name es"
| "slotsComplete QueryTasks es = True"
| "slotsComplete QueryProjects es = True"
| "slotsComplete Navigate es = True"
| "slotsComplete Help es = True"
| "slotsComplete Unknown es = True"

text \<open>
  Modelled from the spec: the slot a clarifying question names, the most important one
  still missing (the name first, then due date, then assignee, then priority).
\<close>

fun askOrder :: "intent_tag \<Rightarrow> slot list" where
  "askOrder CreateTask = [task_name]"
| "askOrder UpdateTask = [task_name, due_date]"
| "askOrder CompleteTask = [task_name]"
| "askOrder AssignTask = [task_name, assignee]"
| "askOrder CreateProject = [project_name]"
| "askOrder UpdateProject = [project_name]"
| "askOrder QueryTasks = []"
| "askOrder QueryProjects = []"
| "askOrder Navigate = []"
| "askOrder Help = []"
| "askOrder Unknown = []"

definition missingSlot :: "intent_tag \<Rightarrow> entity_set \<Rightarrow> slot option" where
  "missingSlot t es =
     (if slotsComplete t es then None else find (\<lambda>s. \<not> present s es) (askOrder t))"

text \<open>
  Modelled from the spec: the suggested example commands of the low-confidence answer
  (section 4.4, step 3); the phrases are the command patterns of \<open>API_SPEC.md\<close>.
\<close>

definition suggestions :: "string list" where
  "suggestions =
     [''Create task [task_name]'', ''Mark [task_name] as complete'',
      ''Assign [task_name] to [user_name]'', ''Create project [project_name]'',
      ''Show my tasks'']"

text \<open>
  Modelled from the spec: the explicit cancel utterances of section 4.4, "cancel" and
  "never mind".
\<close>

definition isCancel :: "string \<Rightarrow> bool" where
  "isCancel t = (t = ''cancel'' \<or> t = ''never mind'')"

text \<open>
  Modelled from the spec: section 4.4, steps 5 to 7. One call to the collaborator, no
  retry; the context of the user is cleared whether the call succeeds or fails.
\<close>

definition execute :: "persistence \<Rightarrow> context_store \<Rightarrow> user_id \<Rightarrow> intent \<Rightarrow> entity_set \<Rightarrow> outcome" where
  "execute persist st uid i es =
     (case persist uid (tag i) es of
        Some ref \<Rightarrow>
          \<lparr>result = \<lparr>success = True, response = Executed, payload = Some ref, error = None\<rparr>,
           store = clear st uid, calls = [(uid, tag i, es)]\<rparr>
      | None \<Rightarrow>
          \<lparr>result = \<lparr>success = False, response = PleaseRetry, payload = None,
                     error = Some ActionExecutionError\<rparr>,
           store = clear st uid, calls = [(uid, tag i, es)]\<rparr>)"

text \<open>
  Modelled from the spec: section 4.4, step 3, the confidence gate, applied to the
  context as it stands after slot filling.
\<close>

definition gate :: "persistence \<Rightarrow> context_store \<Rightarrow> user_id \<Rightarrow> conversation_context \<Rightarrow> outcome" where
  "gate persist st uid c =
     (if 0.8 \<le> confidence (pending c) \<and> slotsComplete (tag (pending c)) (entities c)
      then execute persist st uid (pending c) (entities c)
      else if 0.6 \<le> confidence (pending c)
      then \<lparr>result = \<lparr>success = False,
                       response = AskFor (missingSlot (tag (pending c)) (entities c)),
                       payload = None, error = None\<rparr>,
            store = set_context st uid c, calls = []\<rparr>
      else \<lparr>result = \<lparr>success = False, response = NotUnderstood suggestions,
                       payload = None, error = Some ClassificationLowConfidence\<rparr>,
            store = st, calls = []\<rparr>)"

text \<open>
  Modelled from the spec: section 4.4, steps 1 and 2, with the cancellation of section 5.
  With an unexpired context the utterance is not classified: it is a cancellation, or it
  fills slots of the pending intent. Without one the classifier runs and a context of
  one turn is the candidate for the gate.
\<close>

definition dispatch ::
  "config \<Rightarrow> (string \<Rightarrow> intent) \<Rightarrow> (string \<Rightarrow> intent_tag \<Rightarrow> entity_set) \<Rightarrow> persistence
     \<Rightarrow> context_store \<Rightarrow> int \<Rightarrow> utterance \<Rightarrow> user_id \<Rightarrow> outcome" where
  "dispatch cfg classify extract persist st now u uid =
     (case get cfg st uid now of
        Some c \<Rightarrow>
          if isCancel (transcript u)
          then \<lparr>result = \<lparr>success = True, response = CancelAcknowledged, payload = None,
                          error = None\<rparr>,
                store = clear st uid, calls = []\<rparr>
          else gate persist st uid
                 (c\<lparr>entities := entities c ++ extract (transcript u) (tag (pending c)),
                    turnCount := Suc (turnCount c), lastActivity := now\<rparr>)
      | None \<Rightarrow>
          gate persist st uid
            \<lparr>pending = classify (transcript u),
             entities = extract (transcript u) (tag (classify (transcript u))),
             lastActivity = now, turnCount = 1\<rparr>)"

text \<open>
  The second example scenario of section 8 of the spec, as data: the utterance "Mark
  grocery task complete" classified at 0.85, and a collaborator that finds no matching
  task; next to it a collaborator that succeeds.
\<close>

definition exampleConfig :: config where
  "exampleConfig = \<lparr>inactivityWindow = 300, maxTurns = 5\<rparr>"

definition exampleUtterance :: utterance where
  "exampleUtterance =
     \<lparr>transcript = ''Mark grocery task complete'', score = 0.85, timestamp = 1000,
      sessionId = ''s1''\<rparr>"

definition exampleClassify :: "string \<Rightarrow> intent" where
  "exampleClassify t =
     (if t = ''Mark grocery task complete'' then \<lparr>tag = CompleteTask, confidence = 0.85\<rparr>
      else \<lparr>tag = Unknown, confidence = 0\<rparr>)"

definition exampleExtract :: "string \<Rightarrow> intent_tag \<Rightarrow> entity_set" where
  "exampleExtract t h =
     (if t = ''Mark grocery task complete'' then [task_name \<mapsto> ''grocery''] else Map.empty)"

definition noMatchingTask :: persistence where
  "noMatchingTask uid t es = None"

definition alwaysStored :: persistence where
  "alwaysStored uid t es = Some ''task-1''"

text \<open>
  A context whose last activity, at time 0, is older than the window of 300 when the
  clock shows 1000.
\<close>

definition staleContext :: conversation_context where
  "staleContext =
     \<lparr>pending = \<lparr>tag = CreateTask, confidence = 0.9\<rparr>, entities = Map.empty,
      lastActivity = 0, turnCount = 1\<rparr>"

section \<open>Properties of the confidence bands\<close>

lemma js_length: "length (js s) = length s"
  by (simp add: js_def)

subsection \<open>The doubles between 1/2 and 1\<close>

text \<open>
  Every double from 1/2 on is a multiple of \<open>2^-53\<close>; this is what places a double
  against a decimal threshold.
\<close>

lemma double_grid:
  assumes "is_double d" "1/2 \<le> d"
  shows "\<exists>n::int. d = of_int n / 2 ^ 53"
proof -
  from assms(1) obtain m :: int and k :: nat where m: "\<bar>m\<bar> < 2 ^ 53"
    and d: "(k \<le> 971 \<and> d = of_int m * 2 ^ k) \<or> (k \<le> 1074 \<and> d = of_int m / 2 ^ k)"
    unfolding is_double_def by blast
  from d show ?thesis
  proof
    assume "k \<le> 971 \<and> d = of_int m * 2 ^ k"
    then have "d = of_int (m * 2 ^ k * 2 ^ 53) / 2 ^ 53" by simp
    then show ?thesis by blast
  next
    assume a: "k \<le> 1074 \<and> d = of_int m / 2 ^ k"
    show ?thesis
    proof (cases "k \<le> 53")
      case True
      define q :: real where "q = 2 ^ (53 - k)"
      have q: "0 < q" by (simp add: q_def)
      from True have "(2::real) ^ k * q = 2 ^ (k + (53 - k))"
        unfolding q_def by (simp only: power_add)
      with True have p: "(2::real) ^ 53 = 2 ^ k * q" by simp
      have "of_int (m * 2 ^ (53 - k)) / (2::real) ^ 53 = (of_int m * q) / (2 ^ k * q)"
        unfolding p by (simp add: q_def)
      also have "\<dots> = of_int m / 2 ^ k" using q by simp
      finally have "d = of_int (m * 2 ^ (53 - k)) / 2 ^ 53" using a by simp
      then show ?thesis by blast
    next
      case False
      then have "54 \<le> k" by simp
      then have "(2::real) ^ 54 \<le> 2 ^ k" by (intro power_increasing) simp_all
      moreover from m have "real_of_int m < 2 ^ 53"
        by (metis abs_less_iff of_int_less_numeral_power_cancel_iff)
      ultimately have "real_of_int m / 2 ^ k < 1 / 2"
        by (simp add: field_simps)
      with a assms(2) show ?thesis by simp
    qed
  qed
qed

text \<open>
  The two literals are doubles, and each is nearer to the decimal it writes than any
  other double: they are the values the source's \<open>0.8\<close> and \<open>0.6\<close> have at run time.
\<close>

lemma lit_0_8_double: "is_double lit_0_8"
  unfolding is_double_def lit_0_8_def
  by (rule exI [of _ 7205759403792794], rule exI [of _ 53]) simp



lemma lit_0_8_nearest:
  assumes "is_double d" "d \<noteq> lit_0_8"
  shows "\<bar>lit_0_8 - 0.8\<bar> < \<bar>d - 0.8\<bar>"
proof (cases "1/2 \<le> d")
  case False
  then show ?thesis by (simp add: lit_0_8_def abs_if)
next
  case True
  with assms(1) obtain n :: int where n: "d = of_int n / 2 ^ 53"
    using double_grid by blast
  with assms(2) have "n \<noteq> 7205759403792794" by (auto simp: lit_0_8_def)
  then have "n \<le> 7205759403792793 \<or> 7205759403792795 \<le> n" by linarith
  then have "real_of_int n \<le> 7205759403792793 \<or> 7205759403792795 \<le> real_of_int n"
    by linarith
  then show ?thesis
  proof
    assume "real_of_int n \<le> 7205759403792793"
    then have "d \<le> 7205759403792793 / 2 ^ 53" unfolding n by (simp add: field_simps)
    then show ?thesis by (simp add: lit_0_8_def abs_if)
  next
    assume "7205759403792795 \<le> real_of_int n"
    then have "7205759403792795 / 2 ^ 53 \<le> d" unfolding n by (simp add: field_simps)
    then show ?thesis by (simp add: lit_0_8_def abs_if)
  qed
qed

lemma lit_0_6_nearest:
  assumes "is_double d" "d \<noteq> lit_0_6"
  shows "\<bar>lit_0_6 - 0.6\<bar> < \<bar>d - 0.6\<bar>"
proof (cases "1/2 \<le> d")
  case False
  then show ?thesis by (simp add: lit_0_6_def abs_if)
next
  case True
  with assms(1) obtain n :: int where n: "d = of_int n / 2 ^ 53"
    using double_grid by blast
  with assms(2) have "n \<noteq> 5404319552844595" by (auto simp: lit_0_6_def)
  then have "n \<le> 5404319552844594 \<or> 5404319552844596 \<le> n" by linarith
  then have "real_of_int n \<le> 5404319552844594 \<or> 5404319552844596 \<le> real_of_int n"
    by linarith
  then show ?thesis
  proof
    assume "real_of_int n \<le> 5404319552844594"
    then have "d \<le> 5404319552844594 / 2 ^ 53" unfolding n by (simp add: field_simps)
    then show ?thesis by (simp add: lit_0_6_def abs_if)
  next
    assume "5404319552844596 \<le> real_of_int n"
    then have "5404319552844596 / 2 ^ 53 \<le> d" unfolding n by (simp add: field_simps)
    then show ?thesis by (simp add: lit_0_6_def abs_if)
  qed
qed



subsection \<open>The bands\<close>




text \<open>
  Outside the scale: NaN compares false with both thresholds and falls through to the
  last \<open>return\<close>, as minus infinity does; plus infinity is green.
\<close>

lemma getConfidenceColor_not_finite:
  "getConfidenceColor NaN = js ''text-red-600''"
  "getConfidenceColor NegInf = js ''text-red-600''"
  "getConfidenceColor PosInf = js ''text-green-600''"
  by (simp_all add: getConfidenceColor_def)

lemma getConfidenceColor_examples:
  "getConfidenceColor (Num 1) = js ''text-green-600''"
  "getConfidenceColor (Num lit_0_8) = js ''text-green-600''"
  "getConfidenceColor (Num (3 / 4)) = js ''text-yellow-600''"
  "getConfidenceColor (Num lit_0_6) = js ''text-yellow-600''"
  "getConfidenceColor (Num (1 / 2)) = js ''text-red-600''"
  "getConfidenceColor (Num 0) = js ''text-red-600''"
  by (simp_all add: getConfidenceColor_def lit_0_8_def lit_0_6_def)




section \<open>Properties of \<open>truncateText\<close>\<close>

text \<open>
  C9. For every string and every natural number \<open>maxLength\<close>, \<open>truncateText\<close> returns
  the text unchanged when it has at most \<open>maxLength\<close> code units; otherwise it returns
  the first \<open>maxLength\<close> code units followed by \<open>'...'\<close>, so the result has length
  \<open>maxLength + 3\<close> and starts with the same \<open>maxLength\<close> code units as the text.
\<close>

theorem truncateText_cases:
  "(length text \<le> maxLength \<longrightarrow> truncateText text maxLength = text)
   \<and> (maxLength < length text \<longrightarrow>
        truncateText text maxLength = take maxLength text @ js ''...''
        \<and> length (truncateText text maxLength) = maxLength + 3
        \<and> take maxLength (truncateText text maxLength) = take maxLength text)"
  by (simp add: truncateText_def js_length)

theorem truncateText_cases_witness:
  "length (js ''Hi'') \<le> 5 \<and> truncateText (js ''Hi'') 5 = js ''Hi''
   \<and> 5 < length (js ''Hello, world'')
   \<and> truncateText (js ''Hello, world'') 5 = js ''Hello...''
   \<and> length (truncateText (js ''Hello, world'') 5) = 8"
proof -
  have short: "length (js ''Hi'') \<le> 5" by (simp add: js_def)
  have long: "5 < length (js ''Hello, world'')" by (simp add: js_def)
  from short truncateText_cases [of "js ''Hi''" 5]
  have 1: "truncateText (js ''Hi'') 5 = js ''Hi''" by blast
  from long truncateText_cases [of "js ''Hello, world''" 5]
  have 2: "truncateText (js ''Hello, world'') 5 = take 5 (js ''Hello, world'') @ js ''...''"
    and 3: "length (truncateText (js ''Hello, world'') 5) = 5 + 3" by blast+
  from 2 have "truncateText (js ''Hello, world'') 5 = js ''Hello...''"
    by (simp add: js_def)
  with short long 1 3 show ?thesis by simp
qed

section \<open>Properties of \<open>slugify\<close>\<close>

subsection \<open>Character classes\<close>

lemmas class_defs = isUpperAscii_def isLowerAscii_def isDigit_def isWordChar_def
  isWhiteSpace_def isSeparator_def hyphen_def

lemma upper_lowered: "isUpperAscii c \<Longrightarrow> \<not> isUpperAscii (c + 0x20)"
  unfolding isUpperAscii_def by (simp add: word_le_nat_alt unat_word_ariths)

lemma lower_facts:
  assumes "isLowerAscii c \<or> isDigit c"
  shows "c < 0x80" "\<not> isUpperAscii c" "isWordChar c" "\<not> isSeparator c" "c \<noteq> hyphen"
  using assms unfolding class_defs by (auto simp: word_le_nat_alt word_less_nat_alt)

lemma hyphen_facts:
  "hyphen < 0x80" "\<not> isUpperAscii hyphen" "isSeparator hyphen" "\<not> isWordChar hyphen"
  unfolding class_defs by simp_all

lemma kept_not_separator:
  assumes "isWordChar c \<or> isWhiteSpace c \<or> c = hyphen" "\<not> isSeparator c" "\<not> isUpperAscii c"
  shows "isLowerAscii c \<or> isDigit c"
  using assms unfolding isWordChar_def isSeparator_def by auto

subsection \<open>Lower-casing\<close>

lemma lowerUnit_no_capital:
  assumes "lowersToNoCapital tbl"
  shows "\<forall>u \<in> set (lowerUnit tbl pre c post). \<not> isUpperAscii u"
proof (cases "c < 0x80")
  case True
  then show ?thesis by (simp add: lowerUnit_def upper_lowered)
next
  case False
  then have "0x80 \<le> c" by simp
  with assms have "\<forall>u \<in> set (tbl pre c post). \<not> isUpperAscii u"
    unfolding lowersToNoCapital_def by blast
  with False show ?thesis by (simp add: lowerUnit_def)
qed

lemma lowerFrom_no_capital:
  assumes "lowersToNoCapital tbl"
  shows "\<forall>u \<in> set (lowerFrom tbl pre s). \<not> isUpperAscii u"
proof (induction s arbitrary: pre)
  case Nil
  show ?case by simp
next
  case (Cons c post)
  from lowerUnit_no_capital [OF assms, of pre c post] Cons.IH [of "pre @ [c]"]
  show ?case by (simp only: lowerFrom.simps set_append ball_Un)
qed

lemma lowerUnit_slug: "isSlugUnit c \<Longrightarrow> lowerUnit tbl pre c post = [c]"
proof -
  assume "isSlugUnit c"
  then have "c < 0x80" "\<not> isUpperAscii c"
    unfolding isSlugUnit_def using lower_facts(1,2) hyphen_facts(1,2) by auto
  then show ?thesis by (simp add: lowerUnit_def)
qed

lemma lowerFrom_slug: "\<forall>u \<in> set s. isSlugUnit u \<Longrightarrow> lowerFrom tbl pre s = s"
  by (induction s arbitrary: pre) (simp_all add: lowerUnit_slug)


lemma removeOthers_slug: "\<forall>u \<in> set s. isSlugUnit u \<Longrightarrow> removeOthers s = s"
  unfolding removeOthers_def isSlugUnit_def
  by (rule filter_True) (use lower_facts(3) in auto)

subsection \<open>Collapsing the separator runs\<close>

lemma collapseRuns_units:
  "u \<in> set (collapseRuns s) \<Longrightarrow> u = hyphen \<or> (u \<in> set s \<and> \<not> isSeparator u)"
proof (induction s rule: collapseRuns.induct)
  case 1
  then show ?case by simp
next
  case (2 c cs)
  show ?case
  proof (cases "isSeparator c")
    case True
    with "2.prems" have "u = hyphen \<or> u \<in> set (collapseRuns (dropWhile isSeparator cs))"
      by simp
    with "2.IH"(1) [OF True] show ?thesis
      using set_dropWhileD [of u isSeparator cs] by auto
  next
    case False
    with "2.prems" have "u = c \<or> u \<in> set (collapseRuns cs)"
      by simp
    with "2.IH"(2) [OF False] False show ?thesis by auto
  qed
qed

lemma collapseRuns_head:
  "collapseRuns s = hyphen # ys \<Longrightarrow> s \<noteq> [] \<and> isSeparator (hd s)"
proof (cases s)
  case Nil
  assume "collapseRuns s = hyphen # ys"
  with Nil show ?thesis by simp
next
  case (Cons c cs)
  assume "collapseRuns s = hyphen # ys"
  with Cons show ?thesis by (cases "isSeparator c") (simp_all add: hyphen_facts(3))
qed

lemma collapseRuns_after_run: "collapseRuns (dropWhile isSeparator cs) \<noteq> hyphen # ys"
proof
  assume "collapseRuns (dropWhile isSeparator cs) = hyphen # ys"
  then have "dropWhile isSeparator cs \<noteq> []" "isSeparator (hd (dropWhile isSeparator cs))"
    using collapseRuns_head by blast+
  then show False using hd_dropWhile by blast
qed

lemma collapseRuns_no_double: "collapseRuns s \<noteq> xs @ hyphen # hyphen # ys"
proof (induction s arbitrary: xs rule: collapseRuns.induct)
  case 1
  show ?case by simp
next
  case (2 c cs)
  show ?case
  proof (cases "isSeparator c")
    case True
    show ?thesis
    proof (cases xs)
      case Nil
      then show ?thesis using True collapseRuns_after_run by simp
    next
      case (Cons x xs')
      then show ?thesis using True "2.IH"(1) [OF True, of xs'] by simp
    qed
  next
    case False
    then have "c \<noteq> hyphen" using hyphen_facts(3) by auto
    show ?thesis
    proof (cases xs)
      case Nil
      then show ?thesis using False \<open>c \<noteq> hyphen\<close> by simp
    next
      case (Cons x xs')
      then show ?thesis using False "2.IH"(2) [OF False, of xs'] by simp
    qed
  qed
qed

lemma collapseRuns_slug:
  assumes "\<forall>u \<in> set s. isSlugUnit u" "\<forall>xs ys. s \<noteq> xs @ hyphen # hyphen # ys"
  shows "collapseRuns s = s"
  using assms
proof (induction s)
  case Nil
  show ?case by simp
next
  case (Cons c cs)
  have tl_no_double: "\<forall>xs ys. cs \<noteq> xs @ hyphen # hyphen # ys"
  proof (intro allI notI)
    fix xs ys assume "cs = xs @ hyphen # hyphen # ys"
    then have "c # cs = (c # xs) @ hyphen # hyphen # ys" by simp
    with Cons.prems(2) show False by blast
  qed
  with Cons have IH: "collapseRuns cs = cs" by simp
  show ?case
  proof (cases "isSeparator c")
    case False
    with IH show ?thesis by simp
  next
    case True
    with Cons.prems(1) have c: "c = hyphen"
      unfolding isSlugUnit_def using lower_facts(4) by auto
    have "dropWhile isSeparator cs = cs"
    proof (cases cs)
      case Nil
      then show ?thesis by simp
    next
      case next_unit: (Cons d ds)
      from Cons.prems(2) have "c # cs \<noteq> [] @ hyphen # hyphen # ds" by blast
      with next_unit c have "d \<noteq> hyphen" by simp
      moreover from next_unit Cons.prems(1) have "isSlugUnit d" by simp
      ultimately have "\<not> isSeparator d"
        unfolding isSlugUnit_def using lower_facts(4) by auto
      with next_unit show ?thesis by simp
    qed
    with True c IH show ?thesis by simp
  qed
qed

subsection \<open>Trimming the hyphens at both ends\<close>

lemma trimHyphens_units: "u \<in> set (trimHyphens s) \<Longrightarrow> u \<in> set s"
  unfolding trimHyphens_def by (auto dest!: set_dropWhileD)

lemma trimHyphens_decomp: "\<exists>l r. s = l @ trimHyphens s @ r"
proof -
  let ?P = "\<lambda>c. c = hyphen"
  let ?m = "dropWhile ?P s"
  have "s = takeWhile ?P s @ ?m" by simp
  moreover have "rev ?m = takeWhile ?P (rev ?m) @ dropWhile ?P (rev ?m)" by simp
  then have "?m = rev (dropWhile ?P (rev ?m)) @ rev (takeWhile ?P (rev ?m))"
    by (metis rev_append rev_rev_ident)
  ultimately have "s = takeWhile ?P s @ trimHyphens s @ rev (takeWhile ?P (rev ?m))"
    unfolding trimHyphens_def by simp
  then show ?thesis by blast
qed

lemma trimHyphens_no_double:
  assumes "\<forall>xs ys. s \<noteq> xs @ hyphen # hyphen # ys"
  shows "trimHyphens s \<noteq> xs @ hyphen # hyphen # ys"
proof
  assume eq: "trimHyphens s = xs @ hyphen # hyphen # ys"
  obtain l r where "s = l @ trimHyphens s @ r" using trimHyphens_decomp by blast
  with eq have "s = (l @ xs) @ hyphen # hyphen # (ys @ r)" by simp
  with assms show False by blast
qed

lemma trimHyphens_ends:
  assumes "trimHyphens s \<noteq> []"
  shows "hd (trimHyphens s) \<noteq> hyphen" "last (trimHyphens s) \<noteq> hyphen"
proof -
  let ?P = "\<lambda>c. c = hyphen"
  let ?m = "dropWhile ?P s"
  let ?k = "dropWhile ?P (rev ?m)"
  from assms have k: "?k \<noteq> []" unfolding trimHyphens_def by simp
  then have "\<not> ?P (hd ?k)" by (rule hd_dropWhile)
  with k show "last (trimHyphens s) \<noteq> hyphen"
    unfolding trimHyphens_def by (simp add: last_rev)
  from k have m: "?m \<noteq> []" by (cases "?m = []") simp_all
  then have hm: "\<not> ?P (hd ?m)" by (rule hd_dropWhile)
  obtain r where "?m = rev ?k @ r"
    by (metis rev_append rev_rev_ident takeWhile_dropWhile_id)
  with k have "hd ?m = hd (rev ?k)" by (metis hd_append2 rev_is_Nil_conv)
  with hm show "hd (trimHyphens s) \<noteq> hyphen"
    unfolding trimHyphens_def by simp
qed

lemma trimHyphens_slug:
  assumes "s \<noteq> [] \<longrightarrow> hd s \<noteq> hyphen \<and> last s \<noteq> hyphen"
  shows "trimHyphens s = s"
proof (cases "s = []")
  case True
  then show ?thesis by (simp add: trimHyphens_def)
next
  case False
  with assms have h: "hd s \<noteq> hyphen" and l: "last s \<noteq> hyphen" by simp_all
  from h have 1: "dropWhile (\<lambda>c. c = hyphen) s = s"
    by (simp add: dropWhile_eq_self_iff)
  from l False have "hd (rev s) \<noteq> hyphen" by (simp add: hd_rev)
  then have "dropWhile (\<lambda>c. c = hyphen) (rev s) = rev s"
    by (simp add: dropWhile_eq_self_iff)
  with 1 show ?thesis by (simp add: trimHyphens_def)
qed

subsection \<open>The whole pipeline\<close>

lemma slugify_units:
  assumes "lowersToNoCapital tbl" "u \<in> set (slugify tbl s)"
  shows "isSlugUnit u"
proof -
  from assms(2) have "u \<in> set (collapseRuns (removeOthers (toLowerCase tbl s)))"
    unfolding slugify_def by (rule trimHyphens_units)
  then have "u = hyphen \<or> (u \<in> set (removeOthers (toLowerCase tbl s)) \<and> \<not> isSeparator u)"
    by (rule collapseRuns_units)
  then show ?thesis
  proof
    assume "u = hyphen"
    then show ?thesis by (simp add: isSlugUnit_def)
  next
    assume a: "u \<in> set (removeOthers (toLowerCase tbl s)) \<and> \<not> isSeparator u"
    then have kept: "isWordChar u \<or> isWhiteSpace u \<or> u = hyphen"
      and low: "u \<in> set (toLowerCase tbl s)"
      unfolding removeOthers_def by simp_all
    from low assms(1) have "\<not> isUpperAscii u"
      unfolding toLowerCase_def using lowerFrom_no_capital by blast
    with kept a have "isLowerAscii u \<or> isDigit u" using kept_not_separator by blast
    then show ?thesis by (auto simp: isSlugUnit_def)
  qed
qed

lemma slugify_no_double: "slugify tbl s \<noteq> xs @ hyphen # hyphen # ys"
  unfolding slugify_def using collapseRuns_no_double by (intro trimHyphens_no_double) blast

lemma slugify_ends:
  "slugify tbl s \<noteq> [] \<Longrightarrow> hd (slugify tbl s) \<noteq> hyphen \<and> last (slugify tbl s) \<noteq> hyphen"
  unfolding slugify_def using trimHyphens_ends by blast

lemma slug_fixpoint:
  assumes "\<forall>u \<in> set r. isSlugUnit u" "\<forall>xs ys. r \<noteq> xs @ hyphen # hyphen # ys"
    "r \<noteq> [] \<longrightarrow> hd r \<noteq> hyphen \<and> last r \<noteq> hyphen"
  shows "slugify tbl r = r"
proof -
  from assms(1) have "toLowerCase tbl r = r"
    unfolding toLowerCase_def by (rule lowerFrom_slug)
  moreover from assms(1) have "removeOthers r = r" by (rule removeOthers_slug)
  moreover from assms(1,2) have "collapseRuns r = r" by (rule collapseRuns_slug)
  moreover from assms(3) have "trimHyphens r = r" by (rule trimHyphens_slug)
  ultimately show ?thesis by (simp add: slugify_def)
qed

lemma adjacent_split:
  assumes "Suc i < length r" "r ! i = h" "r ! Suc i = h"
  shows "r = take i r @ h # h # drop (Suc (Suc i)) r"
proof -
  from assms(1) have "i < length r" by simp
  then have "r = take i r @ r ! i # drop (Suc i) r" by (rule id_take_nth_drop)
  moreover from assms(1) have "drop (Suc i) r = r ! Suc i # drop (Suc (Suc i)) r"
    by (simp add: Cons_nth_drop_Suc)
  ultimately show ?thesis using assms(2,3) by simp
qed

text \<open>
  C10. \<open>slugify\<close> is idempotent, \<open>slugify (slugify s) = slugify s\<close> for every string
  \<open>s\<close>, and every code unit of its result is a lower-case letter, a digit or a hyphen,
  with no hyphen at the start, none at the end and no two hyphens in a row. The case
  tables enter through the one fact stated by \<open>lowersToNoCapital\<close>.
\<close>

theorem slugify_idempotent_slug:
  assumes "lowersToNoCapital tbl"
  shows "slugify tbl (slugify tbl s) = slugify tbl s
    \<and> (\<forall>c \<in> set (slugify tbl s). isLowerAscii c \<or> isDigit c \<or> c = hyphen)
    \<and> (slugify tbl s \<noteq> [] \<longrightarrow> hd (slugify tbl s) \<noteq> hyphen \<and> last (slugify tbl s) \<noteq> hyphen)
    \<and> (\<forall>i. Suc i < length (slugify tbl s) \<longrightarrow>
          \<not> (slugify tbl s ! i = hyphen \<and> slugify tbl s ! Suc i = hyphen))"
proof -
  let ?r = "slugify tbl s"
  have units: "\<forall>u \<in> set ?r. isSlugUnit u"
    using assms slugify_units by blast
  have nd: "\<forall>xs ys. ?r \<noteq> xs @ hyphen # hyphen # ys"
    by (intro allI) (rule slugify_no_double)
  have ends: "?r \<noteq> [] \<longrightarrow> hd ?r \<noteq> hyphen \<and> last ?r \<noteq> hyphen"
    by (intro impI) (rule slugify_ends)
  have idem: "slugify tbl ?r = ?r" using units nd ends by (rule slug_fixpoint)
  have shape: "\<forall>c \<in> set ?r. isLowerAscii c \<or> isDigit c \<or> c = hyphen"
    using units unfolding isSlugUnit_def .
  have single: "\<forall>i. Suc i < length ?r \<longrightarrow> \<not> (?r ! i = hyphen \<and> ?r ! Suc i = hyphen)"
  proof (intro allI impI notI)
    fix i assume a: "Suc i < length ?r" and b: "?r ! i = hyphen \<and> ?r ! Suc i = hyphen"
    have neq: "?r \<noteq> take i ?r @ hyphen # hyphen # drop (Suc (Suc i)) ?r"
      by (rule slugify_no_double)
    have eq: "?r = take i ?r @ hyphen # hyphen # drop (Suc (Suc i)) ?r"
      by (rule adjacent_split) (use a b in simp_all)
    from neq eq show False by (rule notE)
  qed
  show ?thesis by (intro conjI) (fact idem shape ends single)+
qed

text \<open>
  The witness runs the pipeline on a string with one code unit outside ASCII, U+00E9
  (e with acute accent) after \<open>Caf\<close>, which goes through the table.
\<close>

theorem slugify_idempotent_slug_witness:
  "lowersToNoCapital keepUnit
   \<and> slugify keepUnit (js ''  Caf'' @ [0xE9] @ js '' au_--Lait!  '') = js ''caf-au-lait''
   \<and> slugify keepUnit (slugify keepUnit (js ''  Caf'' @ [0xE9] @ js '' au_--Lait!  ''))
       = js ''caf-au-lait''"
proof -
  have h: "lowersToNoCapital keepUnit"
    unfolding lowersToNoCapital_def keepUnit_def isUpperAscii_def
    by (simp add: word_le_nat_alt)
  have v: "slugify keepUnit (js ''  Caf'' @ [0xE9] @ js '' au_--Lait!  '') = js ''caf-au-lait''"
    by code_simp
  from slugify_idempotent_slug [OF h, of "js ''  Caf'' @ [0xE9] @ js '' au_--Lait!  ''"]
  have "slugify keepUnit (slugify keepUnit (js ''  Caf'' @ [0xE9] @ js '' au_--Lait!  ''))
        = slugify keepUnit (js ''  Caf'' @ [0xE9] @ js '' au_--Lait!  '')" by blast
  with h v show ?thesis by simp
qed

section \<open>Properties of the dispatcher of the specification\<close>

lemmas example_defs = exampleConfig_def exampleUtterance_def exampleClassify_def
  exampleExtract_def noMatchingTask_def alwaysStored_def staleContext_def

subsection \<open>Execution at high confidence\<close>

text \<open>
  C1, as stated: every utterance classified with confidence at least 0.8 whose required
  slots are all present makes \<open>dispatch\<close> call the persistence collaborator exactly once
  and return \<open>success = true\<close>. The second example scenario of the spec's section 8
  refutes the last part: "Mark grocery task complete" is classified at 0.85 with its task
  name present, the collaborator finds no matching task, and \<open>dispatch\<close>, after its one
  call, returns \<open>success = false\<close> with ActionExecutionError, as step 6 of section 4.4
  asks.
\<close>

theorem dispatch_success_counterexample:
  "get exampleConfig Map.empty ''u1'' 1000 = None
   \<and> 0.8 \<le> confidence (exampleClassify (transcript exampleUtterance))
   \<and> slotsComplete (tag (exampleClassify (transcript exampleUtterance)))
        (exampleExtract (transcript exampleUtterance)
           (tag (exampleClassify (transcript exampleUtterance))))
   \<and> length (calls (dispatch exampleConfig exampleClassify exampleExtract noMatchingTask
        Map.empty 1000 exampleUtterance ''u1'')) = 1
   \<and> \<not> success (result (dispatch exampleConfig exampleClassify exampleExtract noMatchingTask
        Map.empty 1000 exampleUtterance ''u1''))
   \<and> error (result (dispatch exampleConfig exampleClassify exampleExtract noMatchingTask
        Map.empty 1000 exampleUtterance ''u1'')) = Some ActionExecutionError"
  by (simp add: dispatch_def get_def gate_def execute_def present_def example_defs)

text \<open>
  C1, amended: when no unexpired context is pending for the user, so that the utterance
  is classified, and it is classified with confidence at least 0.8 with all required
  slots present, \<open>dispatch\<close> calls the persistence collaborator exactly once, with the
  classified operation and the extracted entities, and does not retry; it returns
  \<open>success = true\<close> exactly when that call succeeds, and \<open>success = false\<close> with
  ActionExecutionError when it fails.
\<close>

theorem dispatch_executes_once:
  assumes "get cfg st uid now = None"
    and "0.8 \<le> confidence (classify (transcript u))"
    and "slotsComplete (tag (classify (transcript u)))
           (extract (transcript u) (tag (classify (transcript u))))"
  shows "calls (dispatch cfg classify extract persist st now u uid)
           = [(uid, tag (classify (transcript u)),
               extract (transcript u) (tag (classify (transcript u))))]
    \<and> (success (result (dispatch cfg classify extract persist st now u uid)) \<longleftrightarrow>
         persist uid (tag (classify (transcript u)))
           (extract (transcript u) (tag (classify (transcript u)))) \<noteq> None)
    \<and> (persist uid (tag (classify (transcript u)))
           (extract (transcript u) (tag (classify (transcript u)))) = None \<longrightarrow>
         error (result (dispatch cfg classify extract persist st now u uid))
           = Some ActionExecutionError)"
proof -
  let ?i = "classify (transcript u)"
  let ?es = "extract (transcript u) (tag ?i)"
  from assms have "dispatch cfg classify extract persist st now u uid
      = execute persist st uid ?i ?es"
    by (simp add: dispatch_def gate_def)
  then show ?thesis
    by (cases "persist uid (tag ?i) ?es") (simp_all add: execute_def)
qed

theorem dispatch_executes_once_witness:
  "get exampleConfig Map.empty ''u1'' 1000 = None
   \<and> 0.8 \<le> confidence (exampleClassify (transcript exampleUtterance))
   \<and> slotsComplete (tag (exampleClassify (transcript exampleUtterance)))
        (exampleExtract (transcript exampleUtterance)
           (tag (exampleClassify (transcript exampleUtterance))))
   \<and> calls (dispatch exampleConfig exampleClassify exampleExtract alwaysStored
        Map.empty 1000 exampleUtterance ''u1'')
       = [(''u1'', CompleteTask, [task_name \<mapsto> ''grocery''])]
   \<and> success (result (dispatch exampleConfig exampleClassify exampleExtract alwaysStored
        Map.empty 1000 exampleUtterance ''u1''))"
proof -
  have h1: "get exampleConfig Map.empty ''u1'' 1000 = None"
    by (simp add: get_def)
  have h2: "0.8 \<le> confidence (exampleClassify (transcript exampleUtterance))"
    by (simp add: example_defs)
  have h3: "slotsComplete (tag (exampleClassify (transcript exampleUtterance)))
        (exampleExtract (transcript exampleUtterance)
           (tag (exampleClassify (transcript exampleUtterance))))"
    by (simp add: present_def example_defs)
  from dispatch_executes_once [of exampleConfig Map.empty "''u1''" 1000 exampleClassify
      exampleUtterance exampleExtract alwaysStored, OF h1 h2 h3]
  have "calls (dispatch exampleConfig exampleClassify exampleExtract alwaysStored
        Map.empty 1000 exampleUtterance ''u1'')
       = [(''u1'', CompleteTask, [task_name \<mapsto> ''grocery''])]
    \<and> success (result (dispatch exampleConfig exampleClassify exampleExtract alwaysStored
        Map.empty 1000 exampleUtterance ''u1''))"
    by (simp add: example_defs)
  with h1 h2 h3 show ?thesis by simp
qed

subsection \<open>Expiry\<close>

lemma gate_result_calls:
  "result (gate persist st uid c) = result (gate persist st' uid c)"
  "calls (gate persist st uid c) = calls (gate persist st' uid c)"
  by (simp_all add: gate_def execute_def split: option.split)

lemma isExpired_later:
  assumes "isExpired cfg c now" "now \<le> t"
  shows "isExpired cfg c t"
  using assms unfolding isExpired_def by auto

lemma get_clear_same: "get cfg (clear st uid) uid t = None"
  by (simp add: get_def clear_def)

lemma get_expired:
  assumes "st uid = Some c" "isExpired cfg c now"
  shows "get cfg st uid now = None"
  using assms by (simp add: get_def)

lemma gate_store_as_cleared:
  assumes "st uid = Some c" "isExpired cfg c now" "now \<le> t"
  shows "get cfg (store (gate persist st uid d)) v t
       = get cfg (store (gate persist (clear st uid) uid d)) v t"
proof (cases "v = uid")
  case False
  then show ?thesis
    by (simp add: gate_def execute_def get_def clear_def set_context_def split: option.split)
next
  case True
  from assms have "isExpired cfg c t" using isExpired_later by blast
  with assms(1) True show ?thesis
    by (simp add: gate_def execute_def get_def clear_def set_context_def split: option.split)
qed

text \<open>
  C5. \<open>isExpired\<close> holds exactly when \<open>now - lastActivity > inactivityWindow\<close> or
  \<open>turnCount >= maxTurns\<close>; and when the entry stored for a user is expired, \<open>get\<close>
  returns nothing, as it does after \<open>clear\<close>, and \<open>dispatch\<close> returns the same result
  and makes the same calls as on the store with that entry cleared, leaving a store in
  which every reader from \<open>now\<close> on sees what it would see after the cleared run. The
  inactivity test does not look at the turn count.
\<close>

theorem expired_context_invisible:
  "(isExpired cfg c now \<longleftrightarrow>
      now - lastActivity c > inactivityWindow cfg \<or> turnCount c \<ge> maxTurns cfg)
   \<and> (st uid = Some c \<and> now - lastActivity c > inactivityWindow cfg \<longrightarrow>
        get cfg st uid now = None)
   \<and> (st uid = Some c \<and> isExpired cfg c now \<longrightarrow>
        get cfg st uid now = None
        \<and> get cfg st uid now = get cfg (clear st uid) uid now
        \<and> result (dispatch cfg classify extract persist st now u uid)
            = result (dispatch cfg classify extract persist (clear st uid) now u uid)
        \<and> calls (dispatch cfg classify extract persist st now u uid)
            = calls (dispatch cfg classify extract persist (clear st uid) now u uid)
        \<and> (\<forall>v t. now \<le> t \<longrightarrow>
              get cfg (store (dispatch cfg classify extract persist st now u uid)) v t
              = get cfg (store (dispatch cfg classify extract persist (clear st uid) now u uid)) v t))"
proof (intro conjI impI)
  show "isExpired cfg c now \<longleftrightarrow>
      now - lastActivity c > inactivityWindow cfg \<or> turnCount c \<ge> maxTurns cfg"
    by (simp add: isExpired_def)
next
  assume "st uid = Some c \<and> now - lastActivity c > inactivityWindow cfg"
  then show "get cfg st uid now = None"
    by (simp add: get_def isExpired_def)
next
  assume a: "st uid = Some c \<and> isExpired cfg c now"
  then have g: "get cfg st uid now = None" using get_expired by blast
  have g': "get cfg (clear st uid) uid now = None" by (rule get_clear_same)
  show "get cfg st uid now = None" by (rule g)
  show "get cfg st uid now = get cfg (clear st uid) uid now" using g g' by simp
  show "result (dispatch cfg classify extract persist st now u uid)
      = result (dispatch cfg classify extract persist (clear st uid) now u uid)"
    unfolding dispatch_def g g' by (simp add: gate_result_calls(1) [of _ st _ _ "clear st uid"])
  show "calls (dispatch cfg classify extract persist st now u uid)
      = calls (dispatch cfg classify extract persist (clear st uid) now u uid)"
    unfolding dispatch_def g g' by (simp add: gate_result_calls(2) [of _ st _ _ "clear st uid"])
  show "\<forall>v t. now \<le> t \<longrightarrow>
              get cfg (store (dispatch cfg classify extract persist st now u uid)) v t
              = get cfg (store (dispatch cfg classify extract persist (clear st uid) now u uid)) v t"
  proof (intro allI impI)
    fix v t assume "now \<le> t"
    with a have "get cfg (store (gate persist st uid d)) v t
               = get cfg (store (gate persist (clear st uid) uid d)) v t" for d
      using gate_store_as_cleared by blast
    then show "get cfg (store (dispatch cfg classify extract persist st now u uid)) v t
      = get cfg (store (dispatch cfg classify extract persist (clear st uid) now u uid)) v t"
      unfolding dispatch_def g g' by simp
  qed
qed

theorem expired_context_invisible_witness:
  "[''u1'' \<mapsto> staleContext] ''u1'' = Some staleContext
   \<and> isExpired exampleConfig staleContext 1000
   \<and> get exampleConfig [''u1'' \<mapsto> staleContext] ''u1'' 1000 = None
   \<and> result (dispatch exampleConfig exampleClassify exampleExtract alwaysStored
         [''u1'' \<mapsto> staleContext] 1000 exampleUtterance ''u1'')
       = result (dispatch exampleConfig exampleClassify exampleExtract alwaysStored
           (clear [''u1'' \<mapsto> staleContext] ''u1'') 1000 exampleUtterance ''u1'')
   \<and> success (result (dispatch exampleConfig exampleClassify exampleExtract alwaysStored
         [''u1'' \<mapsto> staleContext] 1000 exampleUtterance ''u1''))"
proof -
  have h: "[''u1'' \<mapsto> staleContext] ''u1'' = Some staleContext
           \<and> isExpired exampleConfig staleContext 1000"
    by (simp add: isExpired_def example_defs)
  from h expired_context_invisible [of exampleConfig staleContext 1000
      "[''u1'' \<mapsto> staleContext]" "''u1''" exampleClassify exampleExtract alwaysStored
      exampleUtterance]
  have "get exampleConfig [''u1'' \<mapsto> staleContext] ''u1'' 1000 = None"
    and "result (dispatch exampleConfig exampleClassify exampleExtract alwaysStored
         [''u1'' \<mapsto> staleContext] 1000 exampleUtterance ''u1'')
       = result (dispatch exampleConfig exampleClassify exampleExtract alwaysStored
           (clear [''u1'' \<mapsto> staleContext] ''u1'') 1000 exampleUtterance ''u1'')"
    by blast+
  moreover have "success (result (dispatch exampleConfig exampleClassify exampleExtract
      alwaysStored (clear [''u1'' \<mapsto> staleContext] ''u1'') 1000 exampleUtterance ''u1''))"
    by (simp add: dispatch_def get_def clear_def gate_def execute_def present_def example_defs)
  ultimately show ?thesis using h by simp
qed

end
